theory Spec2Isabelle
  imports Complex_Main "HOL-Library.Multiset"
begin

section \<open>PointNet notebook: tensors and library operations\<close>

text \<open>
  The notebook \<^verbatim>\<open>Copy_of_pointnet.ipynb\<close> is a linear Python script over numpy and
  TensorFlow.  Tensor entries are modelled as real numbers with exact arithmetic; rounding,
  overflow and NaN of the float32/float64 entries are outside the model.  A tensor is the
  nested list of its entries in row-major order.  A library call that can raise returns a
  sum, \<open>Inl\<close> carrying the exception.
\<close>

datatype error =
    InvalidArgumentError   \<comment> \<open>\<^verbatim>\<open>tf.errors.InvalidArgumentError\<close>: a shape that does not fit\<close>
  | LoadError string       \<comment> \<open>anything \<^verbatim>\<open>trimesh.load(f).sample(n)\<close> raises on file \<open>f\<close>\<close>
  | RandomOpError          \<comment> \<open>anything \<^verbatim>\<open>tf.random.uniform\<close> or \<^verbatim>\<open>tf.random.shuffle\<close> raises\<close>
  | DownloadError          \<comment> \<open>anything \<^verbatim>\<open>tf.keras.utils.get_file\<close> raises\<close>
  | FrameworkError         \<comment> \<open>anything another Keras, TensorFlow or matplotlib call raises\<close>
  | IndexError             \<comment> \<open>an index past the end of a tensor\<close>
  | KeyError nat           \<comment> \<open>a key that is not in a dictionary\<close>

type_synonym vec = "real list"
type_synonym matrix = "real list list"

text \<open>Cutting a flat list into consecutive rows of \<open>n\<close> entries (row-major reshape).\<close>

definition chunks :: "nat \<Rightarrow> 'a list \<Rightarrow> 'a list list" where
  "chunks n xs = map (\<lambda>i. take n (drop (i * n) xs)) [0..<length xs div n]"

text \<open>
  \<^verbatim>\<open>tf.reshape(t, (-1, n, n))\<close> on the flat data of \<open>t\<close>: the missing dimension cannot be
  inferred when \<open>n * n = 0\<close>, and the number of entries must be a multiple of \<open>n * n\<close>.
\<close>

definition reshape_nn :: "nat \<Rightarrow> real list \<Rightarrow> error + matrix list" where
  "reshape_nn n xs =
     (if n * n = 0 \<or> length xs mod (n * n) \<noteq> 0 then Inl InvalidArgumentError
      else Inr (chunks n (chunks n xs)))"

definition dot :: "vec \<Rightarrow> vec \<Rightarrow> real" where
  "dot u v = sum_list (map2 (*) u v)"

text \<open>
  \<^verbatim>\<open>tf.tensordot(x, y, axes=(2, 2))\<close> for rank-3 tensors: the result has rank 4 and
  \<open>result[a][i][b][j] = \<Sum>m. x[a][i][m] * y[b][j][m]\<close>.
\<close>

definition tensordot_2_2 :: "matrix list \<Rightarrow> matrix list \<Rightarrow> matrix list list" where
  "tensordot_2_2 x y = map (\<lambda>A. map (\<lambda>u. map (\<lambda>B. map (\<lambda>v. dot u v) B) y) A) x"

text \<open>The flat, row-major data of a rank-4 and of a rank-3 tensor.\<close>

definition flat4 :: "matrix list list \<Rightarrow> real list" where
  "flat4 t = concat (concat (concat t))"

definition flat3 :: "matrix list \<Rightarrow> real list" where
  "flat3 t = concat (concat t)"

text \<open>\<^verbatim>\<open>tf.eye(n)\<close> (and \<^verbatim>\<open>np.eye(n)\<close>): the \<open>n \<times> n\<close> identity matrix.\<close>

definition eye :: "nat \<Rightarrow> matrix" where
  "eye n = map (\<lambda>i. map (\<lambda>j. if i = j then 1 else 0) [0..<n]) [0..<n]"

text \<open>\<open>t - eye\<close> for a tensor of shape \<open>(p, n, n)\<close>: the matrix is broadcast over the first axis.\<close>

definition sub_broadcast :: "matrix list \<Rightarrow> matrix \<Rightarrow> matrix list" where
  "sub_broadcast t e = map (\<lambda>M. map2 (\<lambda>r s. map2 (-) r s) M e) t"

definition reduce_sum :: "matrix list \<Rightarrow> real" where
  "reduce_sum t = sum_list (flat3 t)"

section \<open>The orthogonality regularizer\<close>

text \<open>
  \<^verbatim>\<open>
  class OrthogonalRegularizer(keras.regularizers.Regularizer):
      def __init__(self, num_features, l2reg=0.001):
          self.num_features = num_features
          self.l2reg = l2reg
          self.eye = tf.eye(num_features)

      def __call__(self, x):
          x = tf.reshape(x, (-1, self.num_features, self.num_features))
          xxt = tf.tensordot(x, x, axes=(2, 2))
          xxt = tf.reshape(xxt, (-1, self.num_features, self.num_features))
          return tf.reduce_sum(self.l2reg * tf.square(xxt - self.eye))
  \<close>
  The argument \<open>x\<close> is given by its flat data: both reshapes depend on nothing else.
\<close>

record OrthogonalRegularizer =
  num_features :: nat
  l2reg :: real
  eye_of :: matrix

definition OrthogonalRegularizer_init :: "nat \<Rightarrow> real \<Rightarrow> OrthogonalRegularizer" where
  "OrthogonalRegularizer_init n l = \<lparr>num_features = n, l2reg = l, eye_of = eye n\<rparr>"

definition default_l2reg :: real where
  "default_l2reg = 1 / 1000"

definition OrthogonalRegularizer_call :: "OrthogonalRegularizer \<Rightarrow> real list \<Rightarrow> error + real" where
  "OrthogonalRegularizer_call self x =
     (case reshape_nn (num_features self) x of
        Inl e \<Rightarrow> Inl e
      | Inr x3 \<Rightarrow>
          (case reshape_nn (num_features self) (flat4 (tensordot_2_2 x3 x3)) of
             Inl e \<Rightarrow> Inl e
           | Inr xxt \<Rightarrow>
               Inr (reduce_sum
                      (map (map (map (\<lambda>d. l2reg self * (d * d))))
                         (sub_broadcast xxt (eye_of self))))))"

text \<open>
  What the notebook says the regularizer is for (``we constrain the transformation to be
  close to an orthogonal matrix (i.e. ||X*X^T - I|| = 0)''): for every matrix \<open>X\<close> encoded
  in \<open>x\<close>, the squared entrywise deviation of \<open>X \<cdot> X\<^sup>T\<close> from the identity, times \<open>l2reg\<close>.
\<close>

definition gram :: "matrix \<Rightarrow> matrix" where
  "gram X = map (\<lambda>u. map (\<lambda>v. dot u v) X) X"

definition sq_deviation :: "nat \<Rightarrow> matrix \<Rightarrow> real" where
  "sq_deviation n M =
     sum_list (map (\<lambda>d. d * d) (concat (map2 (\<lambda>r s. map2 (-) r s) M (eye n))))"

definition orthogonality_penalty :: "nat \<Rightarrow> real \<Rightarrow> real list \<Rightarrow> real" where
  "orthogonality_penalty n l x =
     l * sum_list (map (\<lambda>X. sq_deviation n (gram X)) (chunks n (chunks n x)))"

section \<open>The T-net at initialisation\<close>








section \<open>Augmentation\<close>


definition has_shape :: "nat \<times> nat \<Rightarrow> matrix \<Rightarrow> bool" where
  "has_shape sh m = (length m = fst sh \<and> list_all (\<lambda>r. length r = snd sh) m)"





section \<open>Paths\<close>

text \<open>
  \<^verbatim>\<open>os.path.join\<close>, \<^verbatim>\<open>os.path.basename\<close> and \<^verbatim>\<open>os.path.dirname\<close> of \<^verbatim>\<open>posixpath\<close> (the notebook
  runs on Colab), and \<^verbatim>\<open>str.split("/")\<close>.
\<close>

definition os_path_join :: "string \<Rightarrow> string \<Rightarrow> string" where
  "os_path_join a b =
     (if (case b of [] \<Rightarrow> False | c # _ \<Rightarrow> c = CHR ''/'') then b
      else if a = [] \<or> last a = CHR ''/'' then a @ b
      else a @ ''/'' @ b)"

definition basename :: "string \<Rightarrow> string" where
  "basename p = rev (takeWhile (\<lambda>c. c \<noteq> CHR ''/'') (rev p))"

definition dirname :: "string \<Rightarrow> string" where
  "dirname p =
     (let head = rev (dropWhile (\<lambda>c. c \<noteq> CHR ''/'') (rev p))
      in if head \<noteq> [] \<and> \<not> list_all (\<lambda>c. c = CHR ''/'') head
         then rev (dropWhile (\<lambda>c. c = CHR ''/'') (rev head))
         else head)"

fun split_slash :: "string \<Rightarrow> string list" where
  "split_slash [] = [[]]"
| "split_slash (c # cs) =
     (if c = CHR ''/'' then [] # split_slash cs
      else (case split_slash cs of
              [] \<Rightarrow> [[c]]
            | w # ws \<Rightarrow> (c # w) # ws))"

section \<open>Parsing the data set\<close>

text \<open>
  \<^verbatim>\<open>
  def parse_dataset(num_points=2048):
      train_points = []
      train_labels = []
      test_points = []
      test_labels = []
      class_map = {}
      folders = glob.glob(os.path.join(DATA_DIR, "[!README]*"))

      for i, folder in enumerate(folders):
          print("processing class: {}".format(os.path.basename(folder)))
          # store folder name with ID so we can retrieve later
          class_map[i] = folder.split("/")[-1]
          # gather all files
          train_files = glob.glob(os.path.join(folder, "train/*"))
          test_files = glob.glob(os.path.join(folder, "test/*"))

          for f in train_files:
              train_points.append(trimesh.load(f).sample(num_points))
              train_labels.append(i)

          for f in test_files:
              test_points.append(trimesh.load(f).sample(num_points))
              test_labels.append(i)

      return (np.array(train_points), np.array(test_points),
              np.array(train_labels), np.array(test_labels), class_map)
  \<close>
  The file system and \<^verbatim>\<open>trimesh\<close> are parameters: \<open>glob pattern\<close> is the list of paths
  \<^verbatim>\<open>glob.glob\<close> returns (it never raises), and \<open>load_sample f n\<close> is what
  \<^verbatim>\<open>trimesh.load(f).sample(n)\<close> returns or raises.  \<^verbatim>\<open>trimesh\<close> documents that
  \<^verbatim>\<open>sample(count)\<close> returns an array of shape \<open>(count, 3)\<close>.  \<^verbatim>\<open>np.array\<close> of a list of
  arrays of one shape stacks them; the model keeps the list.
\<close>

record parsed =
  train_points :: "matrix list"
  test_points :: "matrix list"
  train_labels :: "nat list"
  test_labels :: "nat list"
  class_map :: "nat \<rightharpoonup> string"
  printed :: "string list"

definition sample_contract :: "(string \<Rightarrow> nat \<Rightarrow> error + matrix) \<Rightarrow> bool" where
  "sample_contract load_sample =
     (\<forall>f n c. load_sample f n = Inr c \<longrightarrow> has_shape (n, 3) c)"

text \<open>One \<^verbatim>\<open>for f in files\<close> loop: the clouds and the labels appended so far are \<open>acc\<close>.\<close>

fun sample_files ::
  "(string \<Rightarrow> nat \<Rightarrow> error + matrix) \<Rightarrow> nat \<Rightarrow> nat \<Rightarrow> string list \<Rightarrow>
   matrix list \<times> nat list \<Rightarrow> error + matrix list \<times> nat list" where
  "sample_files load_sample num_points i [] acc = Inr acc"
| "sample_files load_sample num_points i (f # fs) acc =
     (case load_sample f num_points of
        Inl e \<Rightarrow> Inl e
      | Inr cloud \<Rightarrow>
          sample_files load_sample num_points i fs (fst acc @ [cloud], snd acc @ [i]))"

text \<open>The loop over \<^verbatim>\<open>enumerate(folders)\<close>, from index \<open>i\<close> on.\<close>

fun parse_folders ::
  "(string \<Rightarrow> string list) \<Rightarrow> (string \<Rightarrow> nat \<Rightarrow> error + matrix) \<Rightarrow> nat \<Rightarrow> nat \<Rightarrow>
   string list \<Rightarrow> parsed \<Rightarrow> error + parsed" where
  "parse_folders glob load_sample num_points i [] s = Inr s"
| "parse_folders glob load_sample num_points i (folder # rest) s =
     (let s1 = s\<lparr>printed := printed s @ [''processing class: '' @ basename folder],
                 class_map := (class_map s)(i \<mapsto> last (split_slash folder))\<rparr>;
          train_files = glob (os_path_join folder ''train/*'');
          test_files = glob (os_path_join folder ''test/*'')
      in case sample_files load_sample num_points i train_files
                (train_points s1, train_labels s1) of
           Inl e \<Rightarrow> Inl e
         | Inr tr \<Rightarrow>
             (case sample_files load_sample num_points i test_files
                     (test_points s1, test_labels s1) of
                Inl e \<Rightarrow> Inl e
              | Inr te \<Rightarrow>
                  parse_folders glob load_sample num_points (Suc i) rest
                    (s1\<lparr>train_points := fst tr, train_labels := snd tr,
                        test_points := fst te, test_labels := snd te\<rparr>)))"

definition parse_dataset ::
  "(string \<Rightarrow> string list) \<Rightarrow> (string \<Rightarrow> nat \<Rightarrow> error + matrix) \<Rightarrow> string \<Rightarrow> nat \<Rightarrow>
   error + parsed" where
  "parse_dataset glob load_sample data_dir num_points =
     parse_folders glob load_sample num_points 0
       (glob (os_path_join data_dir ''[!README]*''))
       \<lparr>train_points = [], test_points = [], train_labels = [], test_labels = [],
        class_map = Map.empty, printed = []\<rparr>"

text \<open>
  The paths \<^verbatim>\<open>parse_dataset\<close> hands to \<^verbatim>\<open>trimesh\<close>, and the calls in the order it makes
  them; the first exception among the results of a list of calls, and the values of the
  calls that returned.
\<close>

definition folders_of :: "(string \<Rightarrow> string list) \<Rightarrow> string \<Rightarrow> string list" where
  "folders_of glob data_dir = glob (os_path_join data_dir ''[!README]*'')"

definition train_files_of :: "(string \<Rightarrow> string list) \<Rightarrow> string \<Rightarrow> string list" where
  "train_files_of glob folder = glob (os_path_join folder ''train/*'')"

definition test_files_of :: "(string \<Rightarrow> string list) \<Rightarrow> string \<Rightarrow> string list" where
  "test_files_of glob folder = glob (os_path_join folder ''test/*'')"

definition files_in_order :: "(string \<Rightarrow> string list) \<Rightarrow> string list \<Rightarrow> string list" where
  "files_in_order glob folders =
     concat (map (\<lambda>folder. train_files_of glob folder @ test_files_of glob folder) folders)"

fun first_error :: "(error + 'a) list \<Rightarrow> error option" where
  "first_error [] = None"
| "first_error (Inl e # rs) = Some e"
| "first_error (Inr v # rs) = first_error rs"

fun returned :: "(error + 'a) list \<Rightarrow> 'a list" where
  "returned [] = []"
| "returned (Inl e # rs) = returned rs"
| "returned (Inr v # rs) = v # returned rs"

section \<open>The notebook as a script\<close>

text \<open>
  The code cells in the order of the notebook, one statement per library call or group of
  calls; the cells that only define functions (\<^verbatim>\<open>parse_dataset\<close>, \<^verbatim>\<open>augment\<close>,
  \<^verbatim>\<open>conv_bn\<close>, \<^verbatim>\<open>dense_bn\<close>, \<^verbatim>\<open>OrthogonalRegularizer\<close>, \<^verbatim>\<open>tnet\<close>) and the imports run no
  library call.  Every statement carries the constants the source passes.
  \<^verbatim>\<open>
  NUM_POINTS = 2048
  NUM_CLASSES = 10
  BATCH_SIZE = 32
  \<close>
\<close>

definition NUM_POINTS :: nat where
  "NUM_POINTS = 2048"

definition NUM_CLASSES :: nat where
  "NUM_CLASSES = 10"

definition BATCH_SIZE :: nat where
  "BATCH_SIZE = 32"

datatype stmt =
    Pip_install string
      \<comment> \<open>\<^verbatim>\<open>!pip install trimesh\<close>\<close>
  | Set_seed nat
      \<comment> \<open>\<^verbatim>\<open>tf.random.set_seed(1234)\<close>\<close>
  | Get_file string string
      \<comment> \<open>\<^verbatim>\<open>DATA_DIR = tf.keras.utils.get_file(fname, origin, extract=True)\<close>, then
          \<^verbatim>\<open>DATA_DIR = os.path.join(os.path.dirname(DATA_DIR), "ModelNet10")\<close>\<close>
  | Load_mesh string
      \<comment> \<open>\<^verbatim>\<open>mesh = trimesh.load(os.path.join(DATA_DIR, "chair/train/chair_0001.off"))\<close>\<close>
  | Show_mesh
      \<comment> \<open>\<^verbatim>\<open>mesh.show()\<close>\<close>
  | Sample_mesh nat
      \<comment> \<open>\<^verbatim>\<open>points = mesh.sample(2048)\<close>\<close>
  | Plot_points
      \<comment> \<open>\<^verbatim>\<open>fig = plt.figure(...)\<close>, \<^verbatim>\<open>ax.scatter(...)\<close>, \<^verbatim>\<open>plt.show()\<close>\<close>
  | Parse_dataset nat
      \<comment> \<open>\<^verbatim>\<open>train_points, test_points, train_labels, test_labels, CLASS_MAP =
          parse_dataset(NUM_POINTS)\<close>\<close>
  | Make_datasets nat
      \<comment> \<open>\<^verbatim>\<open>from_tensor_slices\<close> twice, \<^verbatim>\<open>shuffle(len(...))\<close>, \<^verbatim>\<open>map(augment)\<close>,
          \<^verbatim>\<open>batch(BATCH_SIZE)\<close>\<close>
  | Build_model nat nat
      \<comment> \<open>\<^verbatim>\<open>inputs = keras.Input(shape=(NUM_POINTS, 3))\<close> to
          \<^verbatim>\<open>outputs = layers.Dense(NUM_CLASSES, activation="softmax")(x)\<close>,
          \<^verbatim>\<open>model = keras.Model(...)\<close>, \<^verbatim>\<open>model.summary()\<close>\<close>
  | Compile real
      \<comment> \<open>\<^verbatim>\<open>model.compile(..., optimizer=keras.optimizers.Adam(learning_rate=0.001), ...)\<close>\<close>
  | Fit nat
      \<comment> \<open>\<^verbatim>\<open>model.fit(train_dataset, epochs=20, validation_data=test_dataset)\<close>\<close>
  | Predict nat
      \<comment> \<open>\<^verbatim>\<open>data = test_dataset.take(1)\<close>, \<^verbatim>\<open>points, labels = list(data)[0]\<close>, the slices
          \<^verbatim>\<open>[:8, ...]\<close>, \<^verbatim>\<open>preds = tf.math.argmax(model.predict(points), -1)\<close>\<close>
  | Plot_predictions nat
      \<comment> \<open>the loop \<^verbatim>\<open>for i in range(8)\<close> with its \<^verbatim>\<open>set_title\<close>, then \<^verbatim>\<open>plt.show()\<close>\<close>

definition notebook :: "stmt list" where
  "notebook =
     [Pip_install ''trimesh'',
      Set_seed 1234,
      Get_file ''modelnet.zip''
        ''http://3dvision.princeton.edu/projects/2014/3DShapeNets/ModelNet10.zip'',
      Load_mesh ''chair/train/chair_0001.off'',
      Show_mesh,
      Sample_mesh 2048,
      Plot_points,
      Parse_dataset NUM_POINTS,
      Make_datasets BATCH_SIZE,
      Build_model NUM_POINTS NUM_CLASSES,
      Compile (1 / 1000),
      Fit 20,
      Predict 8,
      Plot_predictions 8]"

text \<open>
  The world outside the script: the download, the file system, \<^verbatim>\<open>trimesh\<close>, the first
  test batch with the classes the model predicts for it, and for every other statement the
  exception its library calls raise, if any.
\<close>

record library =
  get_file :: "string \<Rightarrow> string \<Rightarrow> error + string"
  glob :: "string \<Rightarrow> string list"
  load_sample :: "string \<Rightarrow> nat \<Rightarrow> error + matrix"
  predict_batch :: "error + nat list \<times> nat list"
  raises :: "stmt \<Rightarrow> error option"

text \<open>The global variables the claims are about, and the statements completed so far.\<close>

record globals =
  DATA_DIR :: string
  train_points_g :: "matrix list"
  test_points_g :: "matrix list"
  train_labels_g :: "nat list"
  test_labels_g :: "nat list"
  CLASS_MAP :: "nat \<rightharpoonup> string"
  preds :: "nat list"
  labels :: "nat list"
  titles :: "string list"
  stdout :: "string list"
  completed :: "stmt list"

text \<open>
  \<^verbatim>\<open>
  for i in range(8):
      ...
      ax.set_title("pred: {:}, label: {:}".format(
          CLASS_MAP[preds[i].numpy()], CLASS_MAP[labels.numpy()[i]]))
  \<close>
  The indexing and the dictionary lookups of the loop are modelled in full, in the order
  Python evaluates them; the matplotlib calls of the cell are one library call.
\<close>

fun plot_titles :: "(nat \<rightharpoonup> string) \<Rightarrow> nat list \<Rightarrow> nat list \<Rightarrow> nat list \<Rightarrow> error + string list" where
  "plot_titles cm ps ls [] = Inr []"
| "plot_titles cm ps ls (i # rest) =
     (if length ps \<le> i then Inl IndexError
      else case cm (ps ! i) of
        None \<Rightarrow> Inl (KeyError (ps ! i))
      | Some p \<Rightarrow>
          (if length ls \<le> i then Inl IndexError
           else case cm (ls ! i) of
             None \<Rightarrow> Inl (KeyError (ls ! i))
           | Some l \<Rightarrow>
               (case plot_titles cm ps ls rest of
                  Inl e \<Rightarrow> Inl e
                | Inr ts \<Rightarrow> Inr ((''pred: '' @ p @ '', label: '' @ l) # ts))))"

definition library_call :: "library \<Rightarrow> stmt \<Rightarrow> globals \<Rightarrow> error + globals" where
  "library_call lib st g = (case raises lib st of Some e \<Rightarrow> Inl e | None \<Rightarrow> Inr g)"

fun exec :: "library \<Rightarrow> stmt \<Rightarrow> globals \<Rightarrow> error + globals" where
  "exec lib (Get_file fname origin) g =
     (case get_file lib fname origin of
        Inl e \<Rightarrow> Inl e
      | Inr p \<Rightarrow> Inr (g\<lparr>DATA_DIR := os_path_join (dirname p) ''ModelNet10''\<rparr>))"
| "exec lib (Parse_dataset n) g =
     (case parse_dataset (glob lib) (load_sample lib) (DATA_DIR g) n of
        Inl e \<Rightarrow> Inl e
      | Inr r \<Rightarrow>
          Inr (g\<lparr>train_points_g := train_points r, test_points_g := test_points r,
                 train_labels_g := train_labels r, test_labels_g := test_labels r,
                 CLASS_MAP := class_map r, stdout := stdout g @ printed r\<rparr>))"
| "exec lib (Predict k) g =
     (case predict_batch lib of
        Inl e \<Rightarrow> Inl e
      | Inr b \<Rightarrow> Inr (g\<lparr>preds := take k (fst b), labels := take k (snd b)\<rparr>))"
| "exec lib (Plot_predictions k) g =
     (case plot_titles (CLASS_MAP g) (preds g) (labels g) [0..<k] of
        Inl e \<Rightarrow> Inl e
      | Inr ts \<Rightarrow> library_call lib (Plot_predictions k) (g\<lparr>titles := ts\<rparr>))"
| "exec lib st g = library_call lib st g"

text \<open>
  A statement that completes is appended to \<open>completed\<close>; one that raises ends the run,
  and \<open>run\<close> returns the globals reached with the exception.
\<close>

definition step :: "library \<Rightarrow> stmt \<Rightarrow> globals \<Rightarrow> error + globals" where
  "step lib st g =
     (case exec lib st g of Inl e \<Rightarrow> Inl e | Inr g' \<Rightarrow> Inr (g'\<lparr>completed := completed g' @ [st]\<rparr>))"

fun run :: "library \<Rightarrow> stmt list \<Rightarrow> globals \<Rightarrow> globals \<times> error option" where
  "run lib [] g = (g, None)"
| "run lib (st # rest) g =
     (case step lib st g of Inl e \<Rightarrow> (g, Some e) | Inr g' \<Rightarrow> run lib rest g')"

definition initial_globals :: globals where
  "initial_globals =
     \<lparr>DATA_DIR = [], train_points_g = [], test_points_g = [], train_labels_g = [],
      test_labels_g = [], CLASS_MAP = Map.empty, preds = [], labels = [], titles = [],
      stdout = [], completed = []\<rparr>"







text \<open>
  A world in which nothing raises: the download lands in \<^verbatim>\<open>/root/.keras/datasets\<close>, the
  data set has one class folder with one training and one test mesh, every sample is at
  the origin, and the model predicts class 0 for a first test batch of eight clouds of
  class 0.
\<close>

definition quiet_library :: library where
  "quiet_library =
     \<lparr>get_file = (\<lambda>fname origin. Inr (''/root/.keras/datasets/'' @ fname)),
      glob = (\<lambda>pattern.
        if pattern = ''/root/.keras/datasets/ModelNet10/[!README]*''
          then [''/root/.keras/datasets/ModelNet10/chair'']
        else if pattern = ''/root/.keras/datasets/ModelNet10/chair/train/*''
          then [''/root/.keras/datasets/ModelNet10/chair/train/chair_0001.off'']
        else if pattern = ''/root/.keras/datasets/ModelNet10/chair/test/*''
          then [''/root/.keras/datasets/ModelNet10/chair/test/chair_0890.off'']
        else []),
      load_sample = (\<lambda>f n. Inr (replicate n [0, 0, 0])),
      predict_batch = Inr (replicate 8 0, replicate 8 0),
      raises = (\<lambda>st. None)\<rparr>"

fun is_parse :: "stmt \<Rightarrow> bool" where
  "is_parse (Parse_dataset n) = True"
| "is_parse st = False"

text \<open>
  What \<^verbatim>\<open>parse_dataset(2)\<close> returns in that world, and the globals after the download.
\<close>

definition quiet_parsed :: parsed where
  "quiet_parsed =
     \<lparr>train_points = [[[0, 0, 0], [0, 0, 0]]], test_points = [[[0, 0, 0], [0, 0, 0]]],
      train_labels = [0], test_labels = [0],
      class_map = [0 \<mapsto> ''chair''], printed = [''processing class: chair'']\<rparr>"

definition quiet_globals :: globals where
  "quiet_globals = initial_globals\<lparr>DATA_DIR := ''/root/.keras/datasets/ModelNet10''\<rparr>"

section \<open>Reshaping: auxiliary facts\<close>

lemma length_chunks: "length (chunks n xs) = length xs div n"
  by (simp add: chunks_def)

lemma length_concat_rows:
  "\<forall>r\<in>set rows. length r = n \<Longrightarrow> length (concat rows) = length rows * n"
  by (induction rows) auto

lemma take_drop_concat_rows:
  "\<forall>r\<in>set rows. length r = n \<Longrightarrow> i < length rows \<Longrightarrow>
     take n (drop (i * n) (concat rows)) = rows ! i"
proof (induction rows arbitrary: i)
  case Nil
  then show ?case by simp
next
  case (Cons r rows)
  show ?case
  proof (cases i)
    case 0
    with Cons.prems show ?thesis by simp
  next
    case (Suc j)
    with Cons.prems have "j < length rows" and "length r = n" by auto
    moreover from Cons.prems have "\<forall>r\<in>set rows. length r = n" by simp
    ultimately show ?thesis using Cons.IH[of j] Suc by (simp add: add.commute)
  qed
qed

lemma chunks_concat:
  assumes "0 < n" and "\<forall>r\<in>set rows. length r = n"
  shows "chunks n (concat rows) = rows"
proof (rule nth_equalityI)
  note len = length_concat_rows[OF assms(2)]
  show "length (chunks n (concat rows)) = length rows"
    using assms(1) by (simp add: length_chunks len)
next
  note len = length_concat_rows[OF assms(2)]
  fix i assume "i < length (chunks n (concat rows))"
  then have "i < length rows" using assms(1) by (simp add: length_chunks len)
  then show "chunks n (concat rows) ! i = rows ! i"
    using assms by (simp add: chunks_def len take_drop_concat_rows)
qed

lemma chunks_single: "0 < n \<Longrightarrow> length xs = n \<Longrightarrow> chunks n xs = [xs]"
  by (simp add: chunks_def)

lemma concat_map_single: "concat (map (\<lambda>u. [f u]) xs) = map f xs"
  by (induction xs) auto

lemma flat3_map: "flat3 (map (map (map f)) t) = map f (flat3 t)"
  by (simp add: flat3_def map_concat)




section \<open>The regularizer on one matrix and on a batch\<close>

text \<open>
  With a nonnegative \<open>l2reg\<close> (the default is \<open>0.001\<close>) the penalty is a sum of
  nonnegative terms.
\<close>

lemma OrthogonalRegularizer_call_nonneg:
  assumes "0 \<le> l2reg self" and "OrthogonalRegularizer_call self x = Inr p"
  shows "0 \<le> p"
proof -
  from assms(2) obtain t where p: "p = reduce_sum (map (map (map (\<lambda>d. l2reg self * (d * d)))) t)"
    by (auto simp: OrthogonalRegularizer_call_def split: sum.splits)
  have "0 \<le> sum_list (map (\<lambda>d. l2reg self * (d * d)) (flat3 t))"
    using assms(1) by (intro sum_list_nonneg) auto
  then show ?thesis by (simp add: p reduce_sum_def flat3_map)
qed

text \<open>
  On the data of a single \<open>n \<times> n\<close> matrix the call returns the squared deviation of
  \<open>X \<cdot> X\<^sup>T\<close> from the identity, times \<open>l2reg\<close>.
\<close>

lemma OrthogonalRegularizer_call_single:
  assumes n: "0 < n" and len: "length x = n * n"
  shows "OrthogonalRegularizer_call (OrthogonalRegularizer_init n l) x
           = Inr (orthogonality_penalty n l x)"
proof -
  define X where "X = chunks n x"
  have lX: "length X = n" using n len by (simp add: X_def length_chunks)
  have x3: "chunks n X = [X]" using n lX by (rule chunks_single)
  have r1: "reshape_nn n x = Inr [X]" using n len x3 by (simp add: reshape_nn_def X_def)
  have f4: "flat4 (tensordot_2_2 [X] [X]) = concat (gram X)"
    by (simp add: flat4_def tensordot_2_2_def gram_def concat_map_single)
  have rows: "\<forall>r\<in>set (gram X). length r = n" by (simp add: gram_def lX)
  have lg: "length (gram X) = n" by (simp add: gram_def lX)
  have c1: "chunks n (concat (gram X)) = gram X" using n rows by (rule chunks_concat)
  have lc: "length (concat (gram X)) = n * n" using length_concat_rows[OF rows] lg by simp
  have r2: "reshape_nn n (concat (gram X)) = Inr [gram X]"
    using n lc c1 chunks_single[OF n lg] by (simp add: reshape_nn_def)
  have "OrthogonalRegularizer_call (OrthogonalRegularizer_init n l) x
      = Inr (sum_list (map (\<lambda>d. l * (d * d))
               (concat (map2 (\<lambda>r s. map2 (-) r s) (gram X) (eye n)))))"
    by (simp add: OrthogonalRegularizer_call_def OrthogonalRegularizer_init_def r1 f4 r2
        sub_broadcast_def reduce_sum_def flat3_def map_concat)
  also have "\<dots> = Inr (orthogonality_penalty n l x)"
    by (simp add: orthogonality_penalty_def sq_deviation_def x3 X_def[symmetric]
        sum_list_const_mult)
  finally show ?thesis .
qed

lemma sum_list_all_zero: "\<forall>x\<in>set xs. f x = (0::real) \<Longrightarrow> sum_list (map f xs) = 0"
  by (induction xs) auto

lemma OrthogonalRegularizer_call_orthonormal:
  assumes "0 < n" and "length x = n * n" and "gram (chunks n x) = eye n"
  shows "OrthogonalRegularizer_call (OrthogonalRegularizer_init n l) x = Inr 0"
proof -
  have "chunks n (chunks n x) = [chunks n x]"
    using assms(1,2) by (simp add: chunks_single length_chunks)
  moreover have "sq_deviation n (eye n) = 0"
    unfolding sq_deviation_def
    by (rule sum_list_all_zero) (auto simp: zip_same_conv_map)
  ultimately have "orthogonality_penalty n l x = 0"
    using assms(3) by (simp add: orthogonality_penalty_def)
  then show ?thesis using OrthogonalRegularizer_call_single[OF assms(1,2)] by simp
qed

text \<open>
  C1: the value returned by \<^verbatim>\<open>__call__\<close> is \<open>l2reg\<close> times the sum, over the matrices \<open>X\<close>
  encoded in \<open>x\<close>, of the squared entrywise deviations of \<open>X \<cdot> X\<^sup>T\<close> from the identity.
  This holds for one matrix (\<open>OrthogonalRegularizer_call_single\<close>) and fails for a batch:
  \<^verbatim>\<open>tensordot\<close> over axes \<open>(2, 2)\<close> also multiplies the rows of different matrices of the
  batch, and the second reshape lines these products up against the identity.  For the
  batch of \<open>[[1, 0], [0, 1]]\<close> and \<open>[[2, 0], [0, 1]]\<close> the call returns \<open>0.027\<close>, where
  the squared deviations sum to \<open>0.009\<close>.
\<close>

theorem OrthogonalRegularizer_call_batch_of_two:
  "OrthogonalRegularizer_call (OrthogonalRegularizer_init 2 default_l2reg)
       [1, 0, 0, 1, 2, 0, 0, 1] = Inr (27 / 1000)
   \<and> orthogonality_penalty 2 default_l2reg [1, 0, 0, 1, 2, 0, 0, 1] = 9 / 1000"
  by code_simp

text \<open>
  C10: the penalty is nonnegative, and zero when every matrix product formed from the
  reshaped input is the identity.  Nonnegativity holds for \<open>0 \<le> l2reg\<close>
  (\<open>OrthogonalRegularizer_call_nonneg\<close>), and a single orthonormal matrix has penalty
  zero (\<open>OrthogonalRegularizer_call_orthonormal\<close>).  For a batch of two \<open>3 \<times> 3\<close> identity
  matrices every product \<open>X\<^sub>a \<cdot> X\<^sub>b\<^sup>T\<close> is the identity, and the call returns \<open>0.016\<close>.
\<close>

theorem OrthogonalRegularizer_call_two_identities:
  "list_all (\<lambda>A. list_all (\<lambda>B. map (\<lambda>u. map (\<lambda>v. dot u v) B) A = eye 3) [eye 3, eye 3])
       [eye 3, eye 3]
   \<and> reshape_nn 3 (concat (eye 3) @ concat (eye 3)) = Inr [eye 3, eye 3]
   \<and> OrthogonalRegularizer_call (OrthogonalRegularizer_init 3 default_l2reg)
       (concat (eye 3) @ concat (eye 3)) = Inr (2 / 125)"
  by code_simp

section \<open>The T-net at initialisation: properties\<close>












section \<open>Parsing the data set: properties\<close>

lemma first_error_append:
  "first_error (xs @ ys) = (case first_error xs of Some e \<Rightarrow> Some e | None \<Rightarrow> first_error ys)"
  by (induction xs rule: first_error.induct) auto

lemma returned_append: "returned (xs @ ys) = returned xs @ returned ys"
  by (induction xs rule: returned.induct) auto

lemma first_error_None: "first_error rs = None \<Longrightarrow> map Inr (returned rs) = rs"
  by (induction rs rule: first_error.induct) auto

lemma sample_files_eq:
  "sample_files ls n i fs acc =
     (case first_error (map (\<lambda>f. ls f n) fs) of
        Some e \<Rightarrow> Inl e
      | None \<Rightarrow> Inr (fst acc @ returned (map (\<lambda>f. ls f n) fs), snd acc @ replicate (length fs) i))"
proof (induction fs arbitrary: acc)
  case Nil
  then show ?case by simp
next
  case (Cons f fs)
  show ?case
  proof (cases "ls f n")
    case (Inl e)
    then show ?thesis by simp
  next
    case (Inr c)
    then show ?thesis
      by (simp add: Cons.IH replicate_app_Cons_same split: option.splits)
  qed
qed

lemma parse_folders_step:
  "parse_folders gl ls n i (folder # rest) s =
     (case first_error (map (\<lambda>f. ls f n) (train_files_of gl folder @ test_files_of gl folder)) of
        Some e \<Rightarrow> Inl e
      | None \<Rightarrow>
          parse_folders gl ls n (Suc i) rest
            (s\<lparr>printed := printed s @ [''processing class: '' @ basename folder],
               class_map := (class_map s)(i \<mapsto> last (split_slash folder)),
               train_points := train_points s @ returned (map (\<lambda>f. ls f n) (train_files_of gl folder)),
               train_labels := train_labels s @ replicate (length (train_files_of gl folder)) i,
               test_points := test_points s @ returned (map (\<lambda>f. ls f n) (test_files_of gl folder)),
               test_labels := test_labels s @ replicate (length (test_files_of gl folder)) i\<rparr>))"
  by (simp add: sample_files_eq first_error_append train_files_of_def test_files_of_def Let_def
      split: option.splits)

lemma files_in_order_Cons:
  "map (\<lambda>f. ls f n) (files_in_order gl (folder # rest))
     = map (\<lambda>f. ls f n) (train_files_of gl folder @ test_files_of gl folder)
       @ map (\<lambda>f. ls f n) (files_in_order gl rest)"
  by (simp add: files_in_order_def)

lemma parse_folders_error:
  "parse_folders gl ls n i folders s = Inl e \<longleftrightarrow>
     first_error (map (\<lambda>f. ls f n) (files_in_order gl folders)) = Some e"
proof (induction folders arbitrary: i s)
  case Nil
  then show ?case by (simp add: files_in_order_def)
next
  case (Cons folder rest)
  show ?case
  proof (cases "first_error (map (\<lambda>f. ls f n) (train_files_of gl folder @ test_files_of gl folder))")
    case None
    then show ?thesis
      unfolding parse_folders_step files_in_order_Cons first_error_append
      by (simp add: Cons.IH)
  next
    case (Some e')
    then show ?thesis
      unfolding parse_folders_step files_in_order_Cons first_error_append
      by simp
  qed
qed

lemma parse_folders_fields:
  assumes "parse_folders gl ls n i folders s = Inr r"
  shows "train_points r = train_points s
           @ returned (map (\<lambda>f. ls f n) (concat (map (train_files_of gl) folders)))"
    and "test_points r = test_points s
           @ returned (map (\<lambda>f. ls f n) (concat (map (test_files_of gl) folders)))"
    and "train_labels r = train_labels s
           @ concat (map (\<lambda>(j, fo). replicate (length (train_files_of gl fo)) j) (enumerate i folders))"
    and "test_labels r = test_labels s
           @ concat (map (\<lambda>(j, fo). replicate (length (test_files_of gl fo)) j) (enumerate i folders))"
    and "class_map r = (\<lambda>k. if i \<le> k \<and> k < i + length folders
                              then Some (last (split_slash (folders ! (k - i)))) else class_map s k)"
    and "printed r = printed s @ map (\<lambda>fo. ''processing class: '' @ basename fo) folders"
  using assms
proof (induction folders arbitrary: i s)
  case Nil
  { case 1 then show ?case by simp }
  { case 2 then show ?case by simp }
  { case 3 then show ?case by simp }
  { case 4 then show ?case by simp }
  { case 5 then show ?case by (auto intro!: ext) }
  { case 6 then show ?case by simp }
next
  case (Cons folder rest)
  { case 1 then show ?case
      unfolding parse_folders_step
      by (auto split: option.splits dest!: Cons.IH(1) simp: returned_append) }
  { case 2 then show ?case
      unfolding parse_folders_step
      by (auto split: option.splits dest!: Cons.IH(2) simp: returned_append) }
  { case 3 then show ?case
      unfolding parse_folders_step
      by (auto split: option.splits dest!: Cons.IH(3)) }
  { case 4 then show ?case
      unfolding parse_folders_step
      by (auto split: option.splits dest!: Cons.IH(4)) }
  { case 5
    then obtain s' where r: "parse_folders gl ls n (Suc i) rest s' = Inr r"
      and cm: "class_map s' = (class_map s)(i \<mapsto> last (split_slash folder))"
      unfolding parse_folders_step by (auto split: option.splits)
    show ?case
      unfolding Cons.IH(5)[OF r] cm
      by (rule ext) (auto simp: nth_Cons' Suc_diff_le) }
  { case 6 then show ?case
      unfolding parse_folders_step
      by (auto split: option.splits dest!: Cons.IH(6)) }
qed

lemma split_slash_no_slash: "CHR ''/'' \<notin> set p \<Longrightarrow> split_slash p = [p]"
  by (induction p) auto

lemma split_slash_not_Nil: "split_slash p \<noteq> []"
  by (induction p) (auto split: list.splits)

lemma split_slash_slash: "CHR ''/'' \<in> set p \<Longrightarrow> \<exists>w v ws. split_slash p = w # v # ws"
proof (induction p)
  case Nil
  then show ?case by simp
next
  case (Cons c cs)
  show ?case
  proof (cases "c = CHR ''/''")
    case True
    then show ?thesis using split_slash_not_Nil[of cs] by (cases "split_slash cs") auto
  next
    case False
    with Cons.prems have "CHR ''/'' \<in> set cs" by simp
    from Cons.IH[OF this] obtain w v ws where "split_slash cs = w # v # ws" by blast
    with False show ?thesis by simp
  qed
qed

lemma basename_Cons:
  "basename (c # cs) =
     (if CHR ''/'' \<in> set cs then basename cs else if c = CHR ''/'' then cs else c # cs)"
  by (auto simp: basename_def takeWhile_append)

lemma basename_no_slash:
  assumes "CHR ''/'' \<notin> set p"
  shows "basename p = p"
proof -
  have "takeWhile (\<lambda>c. c \<noteq> CHR ''/'') (rev p) = rev p"
    using assms by (intro takeWhile_eq_all_conv[THEN iffD2]) auto
  then show ?thesis unfolding basename_def by (simp only: rev_rev_ident)
qed

lemma last_split_slash: "last (split_slash p) = basename p"
proof (induction p)
  case Nil
  then show ?case by (simp add: basename_def)
next
  case (Cons c cs)
  show ?case
  proof (cases "CHR ''/'' \<in> set cs")
    case True
    from split_slash_slash[OF this] obtain w v ws where sp: "split_slash cs = w # v # ws" by blast
    with Cons.IH True show ?thesis by (simp add: basename_Cons)
  next
    case False
    then show ?thesis
      by (simp add: basename_Cons split_slash_no_slash basename_no_slash)
  qed
qed

lemma first_error_None_iff: "first_error rs = None \<longleftrightarrow> (\<forall>r\<in>set rs. \<not> isl r)"
  by (induction rs rule: first_error.induct) auto

lemma parse_dataset_error:
  "parse_dataset gl ls d n = Inl e \<longleftrightarrow>
     first_error (map (\<lambda>f. ls f n) (files_in_order gl (folders_of gl d))) = Some e"
  by (simp add: parse_dataset_def folders_of_def parse_folders_error)

lemma parse_dataset_all_returned:
  assumes "parse_dataset gl ls d n = Inr r"
  shows "first_error (map (\<lambda>f. ls f n) (files_in_order gl (folders_of gl d))) = None"
proof (cases "first_error (map (\<lambda>f. ls f n) (files_in_order gl (folders_of gl d)))")
  case None
  then show ?thesis .
next
  case (Some e)
  then have "parse_dataset gl ls d n = Inl e" by (simp add: parse_dataset_error)
  with assms show ?thesis by simp
qed

lemma train_calls_returned:
  assumes "first_error (map (\<lambda>f. ls f n) (files_in_order gl folders)) = None"
  shows "first_error (map (\<lambda>f. ls f n) (concat (map (train_files_of gl) folders))) = None"
    and "first_error (map (\<lambda>f. ls f n) (concat (map (test_files_of gl) folders))) = None"
  using assms by (auto simp: first_error_None_iff files_in_order_def)

lemma parse_dataset_points:
  assumes "parse_dataset gl ls d n = Inr r"
  shows "map Inr (train_points r)
           = map (\<lambda>f. ls f n) (concat (map (train_files_of gl) (folders_of gl d)))"
    and "map Inr (test_points r)
           = map (\<lambda>f. ls f n) (concat (map (test_files_of gl) (folders_of gl d)))"
proof -
  note ok = train_calls_returned[of ls n gl "folders_of gl d", OF parse_dataset_all_returned[OF assms]]
  from assms have pf: "parse_folders gl ls n 0 (folders_of gl d)
       \<lparr>train_points = [], test_points = [], train_labels = [], test_labels = [],
        class_map = Map.empty, printed = []\<rparr> = Inr r"
    by (simp add: parse_dataset_def folders_of_def)
  show "map Inr (train_points r)
           = map (\<lambda>f. ls f n) (concat (map (train_files_of gl) (folders_of gl d)))"
    using parse_folders_fields(1)[OF pf] first_error_None[OF ok(1)] by simp
  show "map Inr (test_points r)
           = map (\<lambda>f. ls f n) (concat (map (test_files_of gl) (folders_of gl d)))"
    using parse_folders_fields(2)[OF pf] first_error_None[OF ok(2)] by simp
qed

lemma parse_dataset_labels:
  assumes "parse_dataset gl ls d n = Inr r"
  shows "train_labels r = concat (map (\<lambda>(j, fo). replicate (length (train_files_of gl fo)) j)
                                   (enumerate 0 (folders_of gl d)))"
    and "test_labels r = concat (map (\<lambda>(j, fo). replicate (length (test_files_of gl fo)) j)
                                   (enumerate 0 (folders_of gl d)))"
proof -
  from assms have pf: "parse_folders gl ls n 0 (folders_of gl d)
       \<lparr>train_points = [], test_points = [], train_labels = [], test_labels = [],
        class_map = Map.empty, printed = []\<rparr> = Inr r"
    by (simp add: parse_dataset_def folders_of_def)
  show "train_labels r = concat (map (\<lambda>(j, fo). replicate (length (train_files_of gl fo)) j)
                                   (enumerate 0 (folders_of gl d)))"
    using parse_folders_fields(3)[OF pf] by simp
  show "test_labels r = concat (map (\<lambda>(j, fo). replicate (length (test_files_of gl fo)) j)
                                   (enumerate 0 (folders_of gl d)))"
    using parse_folders_fields(4)[OF pf] by simp
qed

lemma parse_dataset_class_map:
  assumes "parse_dataset gl ls d n = Inr r"
  shows "class_map r = (\<lambda>i. if i < length (folders_of gl d)
                             then Some (basename (folders_of gl d ! i)) else None)"
proof -
  from assms have pf: "parse_folders gl ls n 0 (folders_of gl d)
       \<lparr>train_points = [], test_points = [], train_labels = [], test_labels = [],
        class_map = Map.empty, printed = []\<rparr> = Inr r"
    by (simp add: parse_dataset_def folders_of_def)
  show ?thesis
    unfolding parse_folders_fields(5)[OF pf] by (rule ext) (simp add: last_split_slash)
qed

lemma zip_concat_map:
  "\<forall>x\<in>set xs. length (f x) = length (g x) \<Longrightarrow>
     zip (concat (map f xs)) (concat (map g xs)) = concat (map (\<lambda>x. zip (f x) (g x)) xs)"
  by (induction xs) auto

lemma zip_map_replicate: "zip (map f fs) (replicate (length fs) i) = map (\<lambda>x. (f x, i)) fs"
  by (induction fs) auto

lemma concat_map_enumerate:
  "concat (map (\<lambda>(j, fo). f fo) (enumerate i folders)) = concat (map f folders)"
  by (induction folders arbitrary: i) auto

lemma labelled_examples:
  assumes "map Inr pts = map (\<lambda>f. ls f n) (concat (map files folders))"
    and "lbls = concat (map (\<lambda>(j, fo). replicate (length (files fo)) j) (enumerate 0 folders))"
  shows "zip (map Inr pts) lbls
           = concat (map (\<lambda>(j, fo). map (\<lambda>f. (ls f n, j)) (files fo)) (enumerate 0 folders))"
    and "length lbls = length pts"
proof -
  have pts: "map Inr pts
      = concat (map (\<lambda>(j, fo). map (\<lambda>f. ls f n) (files fo)) (enumerate 0 folders))"
    unfolding assms(1) concat_map_enumerate by (simp add: map_concat comp_def)
  have "zip (map Inr pts) lbls
      = concat (map (\<lambda>x. zip ((\<lambda>(j, fo). map (\<lambda>f. ls f n) (files fo)) x)
                              ((\<lambda>(j, fo). replicate (length (files fo)) j) x))
                 (enumerate 0 folders))"
    unfolding pts assms(2) by (rule zip_concat_map) auto
  also have "\<dots> = concat (map (\<lambda>(j, fo). map (\<lambda>f. (ls f n, j)) (files fo)) (enumerate 0 folders))"
    by (rule arg_cong[where f = concat], rule map_cong) (auto simp: zip_map_replicate)
  finally show "zip (map Inr pts) lbls
           = concat (map (\<lambda>(j, fo). map (\<lambda>f. (ls f n, j)) (files fo)) (enumerate 0 folders))" .
  have "length pts
      = length (concat (map (\<lambda>(j, fo). map (\<lambda>f. ls f n) (files fo)) (enumerate 0 folders)))"
    using arg_cong[OF pts, of length] by simp
  then show "length lbls = length pts"
    unfolding assms(2) by (simp add: length_concat comp_def split_def)
qed

lemma quiet_parse:
  "parse_dataset (glob quiet_library) (load_sample quiet_library)
       ''/root/.keras/datasets/ModelNet10'' 2 = Inr quiet_parsed"
  by (simp add: parse_dataset_def quiet_library_def quiet_parsed_def os_path_join_def
      basename_def numeral_2_eq_2)

lemma quiet_contract: "sample_contract (load_sample quiet_library)"
  by (auto simp: sample_contract_def quiet_library_def has_shape_def list_all_length)

text \<open>
  C2: in every successful run of \<^verbatim>\<open>parse_dataset(num_points)\<close> each returned cloud has
  \<open>num_points\<close> points of 3 coordinates (this is the shape \<^verbatim>\<open>trimesh\<close> documents for
  \<^verbatim>\<open>sample\<close>), and \<^verbatim>\<open>parse_dataset\<close> imposes nothing else: the returned clouds are
  exactly what \<^verbatim>\<open>trimesh\<close> returned for the training and the test files, in order, none
  dropped and none changed.
\<close>

theorem parse_dataset_point_clouds:
  assumes "sample_contract ls" and "parse_dataset gl ls d n = Inr r"
  shows "list_all (has_shape (n, 3)) (train_points r)
       \<and> list_all (has_shape (n, 3)) (test_points r)
       \<and> map Inr (train_points r)
           = map (\<lambda>f. ls f n) (concat (map (train_files_of gl) (folders_of gl d)))
       \<and> map Inr (test_points r)
           = map (\<lambda>f. ls f n) (concat (map (test_files_of gl) (folders_of gl d)))"
proof -
  note pts = parse_dataset_points[OF assms(2)]
  have shape: "has_shape (n, 3) c" if "Inr c \<in> set (map (\<lambda>f. ls f n) fs)" for c fs
  proof -
    from that obtain f where "ls f n = Inr c" by auto
    with assms(1) show ?thesis unfolding sample_contract_def by blast
  qed
  have "has_shape (n, 3) c" if "c \<in> set (train_points r)" for c
  proof -
    from that have "Inr c \<in> set (map Inr (train_points r) :: (error + matrix) list)" by simp
    then show ?thesis unfolding pts(1) by (rule shape)
  qed
  moreover have "has_shape (n, 3) c" if "c \<in> set (test_points r)" for c
  proof -
    from that have "Inr c \<in> set (map Inr (test_points r) :: (error + matrix) list)" by simp
    then show ?thesis unfolding pts(2) by (rule shape)
  qed
  ultimately show ?thesis using pts by (simp add: list_all_iff)
qed

theorem parse_dataset_point_clouds_witness:
  "sample_contract (load_sample quiet_library)
   \<and> parse_dataset (glob quiet_library) (load_sample quiet_library)
        ''/root/.keras/datasets/ModelNet10'' 2 = Inr quiet_parsed
   \<and> list_all (has_shape (2, 3)) (train_points quiet_parsed)
   \<and> list_all (has_shape (2, 3)) (test_points quiet_parsed)"
  using parse_dataset_point_clouds[OF quiet_contract quiet_parse] quiet_contract quiet_parse
  by simp

text \<open>
  C3: in every successful run of \<^verbatim>\<open>parse_dataset\<close> there is one label per cloud, and the
  label paired with a cloud is the \<^verbatim>\<open>enumerate\<close> index of the class folder whose file the
  cloud was sampled from.
\<close>

theorem parse_dataset_labels_are_folder_indices:
  assumes "parse_dataset gl ls d n = Inr r"
  shows "length (train_labels r) = length (train_points r)
       \<and> length (test_labels r) = length (test_points r)
       \<and> zip (map Inr (train_points r)) (train_labels r)
           = concat (map (\<lambda>(i, folder). map (\<lambda>f. (ls f n, i)) (train_files_of gl folder))
                       (enumerate 0 (folders_of gl d)))
       \<and> zip (map Inr (test_points r)) (test_labels r)
           = concat (map (\<lambda>(i, folder). map (\<lambda>f. (ls f n, i)) (test_files_of gl folder))
                       (enumerate 0 (folders_of gl d)))"
  using labelled_examples[where files = "train_files_of gl" and folders = "folders_of gl d"
        and ls = ls and n = n,
        OF parse_dataset_points(1)[OF assms] parse_dataset_labels(1)[OF assms]]
    labelled_examples[where files = "test_files_of gl" and folders = "folders_of gl d"
        and ls = ls and n = n,
        OF parse_dataset_points(2)[OF assms] parse_dataset_labels(2)[OF assms]]
  by simp

theorem parse_dataset_labels_are_folder_indices_witness:
  "parse_dataset (glob quiet_library) (load_sample quiet_library)
        ''/root/.keras/datasets/ModelNet10'' 2 = Inr quiet_parsed
   \<and> zip (map Inr (train_points quiet_parsed)) (train_labels quiet_parsed)
       = [(load_sample quiet_library
             ''/root/.keras/datasets/ModelNet10/chair/train/chair_0001.off'' 2, 0)]
   \<and> zip (map Inr (test_points quiet_parsed)) (test_labels quiet_parsed)
       = [(load_sample quiet_library
             ''/root/.keras/datasets/ModelNet10/chair/test/chair_0890.off'' 2, 0)]"
  using parse_dataset_labels_are_folder_indices[OF quiet_parse] quiet_parse
  by (simp add: quiet_parsed_def quiet_library_def numeral_2_eq_2)



section \<open>Augmentation: properties\<close>













section \<open>The script: properties\<close>





lemma exec_CLASS_MAP: "\<not> is_parse st \<Longrightarrow> exec lib st g = Inr g' \<Longrightarrow> CLASS_MAP g' = CLASS_MAP g"
  by (cases st) (auto simp: library_call_def split: sum.splits option.splits)

lemma step_CLASS_MAP: "\<not> is_parse st \<Longrightarrow> step lib st g = Inr g' \<Longrightarrow> CLASS_MAP g' = CLASS_MAP g"
  by (auto simp: step_def split: sum.splits dest: exec_CLASS_MAP)

lemma run_CLASS_MAP:
  "list_all (\<lambda>st. \<not> is_parse st) sts \<Longrightarrow> CLASS_MAP (fst (run lib sts g)) = CLASS_MAP g"
proof (induction sts arbitrary: g)
  case Nil
  then show ?case by simp
next
  case (Cons st rest)
  then show ?case by (cases "step lib st g") (auto dest: step_CLASS_MAP)
qed



text \<open>
  C4: the class map \<^verbatim>\<open>parse_dataset\<close> returns maps each index \<open>i\<close> to the base name of the
  \<open>i\<close>-th matched class directory and nothing else; the script assigns it to \<^verbatim>\<open>CLASS_MAP\<close>
  in the one statement that calls \<^verbatim>\<open>parse_dataset\<close>, and no statement before or after it
  changes \<^verbatim>\<open>CLASS_MAP\<close>, whether the run completes or stops at an exception.
\<close>

theorem CLASS_MAP_built_once_then_read:
  "(exec lib (Parse_dataset n) g = Inr g' \<longrightarrow>
      CLASS_MAP g' = (\<lambda>i. if i < length (folders_of (glob lib) (DATA_DIR g))
                          then Some (basename (folders_of (glob lib) (DATA_DIR g) ! i))
                          else None))
   \<and> filter is_parse notebook = [Parse_dataset NUM_POINTS]
   \<and> notebook = take 7 notebook @ Parse_dataset NUM_POINTS # drop 8 notebook
   \<and> CLASS_MAP (fst (run lib (take 7 notebook) g)) = CLASS_MAP g
   \<and> CLASS_MAP (fst (run lib (drop 8 notebook) g)) = CLASS_MAP g"
proof -
  have "CLASS_MAP g' = (\<lambda>i. if i < length (folders_of (glob lib) (DATA_DIR g))
                          then Some (basename (folders_of (glob lib) (DATA_DIR g) ! i))
                          else None)"
    if "exec lib (Parse_dataset n) g = Inr g'"
  proof -
    from that obtain r where
      r: "parse_dataset (glob lib) (load_sample lib) (DATA_DIR g) n = Inr r"
      and "CLASS_MAP g' = class_map r"
      by (auto split: sum.splits)
    then show ?thesis using parse_dataset_class_map[OF r] by simp
  qed
  moreover have "list_all (\<lambda>st. \<not> is_parse st) (take 7 notebook)"
    and "list_all (\<lambda>st. \<not> is_parse st) (drop 8 notebook)"
    by (simp_all add: notebook_def)
  ultimately show ?thesis
    by (simp add: run_CLASS_MAP) (simp add: notebook_def)
qed

theorem CLASS_MAP_built_once_then_read_witness:
  "exec quiet_library (Parse_dataset 2) quiet_globals
     = Inr (quiet_globals\<lparr>train_points_g := train_points quiet_parsed,
              test_points_g := test_points quiet_parsed,
              train_labels_g := train_labels quiet_parsed,
              test_labels_g := test_labels quiet_parsed,
              CLASS_MAP := class_map quiet_parsed,
              stdout := stdout quiet_globals @ printed quiet_parsed\<rparr>)
   \<and> class_map quiet_parsed 0 = Some ''chair''
   \<and> class_map quiet_parsed 1 = None
   \<and> CLASS_MAP (fst (run quiet_library (drop 8 notebook) quiet_globals)) = CLASS_MAP quiet_globals"
proof -
  let ?g' = "quiet_globals\<lparr>train_points_g := train_points quiet_parsed,
              test_points_g := test_points quiet_parsed,
              train_labels_g := train_labels quiet_parsed,
              test_labels_g := test_labels quiet_parsed,
              CLASS_MAP := class_map quiet_parsed,
              stdout := stdout quiet_globals @ printed quiet_parsed\<rparr>"
  have x: "exec quiet_library (Parse_dataset 2) quiet_globals = Inr ?g'"
    using quiet_parse by (simp add: quiet_globals_def)
  have f: "folders_of (glob quiet_library) (DATA_DIR quiet_globals)
             = [''/root/.keras/datasets/ModelNet10/chair'']"
    by (simp add: folders_of_def quiet_library_def quiet_globals_def os_path_join_def)
  note inst = CLASS_MAP_built_once_then_read[of quiet_library 2 quiet_globals ?g']
  from inst x have cm: "class_map quiet_parsed
      = (\<lambda>i. if i < length (folders_of (glob quiet_library) (DATA_DIR quiet_globals))
              then Some (basename (folders_of (glob quiet_library) (DATA_DIR quiet_globals) ! i))
              else None)"
    by simp
  have "class_map quiet_parsed 0 = Some ''chair''"
    unfolding cm f by (simp add: basename_def)
  moreover have "class_map quiet_parsed 1 = None"
    unfolding cm f by simp
  ultimately show ?thesis using x inst by simp
qed






end
